theory Spec2Isabelle
  imports Complex_Main
begin

section \<open>Numbers and vectors\<close>

text \<open>
  The program is TypeScript; every number in it is a JavaScript number. The development
  reads them as real numbers, so thresholds, differences and interpolation steps are the
  exact ones and rounding of the binary representation is not part of the model.
  A \<open>THREE.Vector2\<close> is a pair and a \<open>THREE.Vector3\<close> a triple of reals.
\<close>

type_synonym vec2 = "real \<times> real"
type_synonym vec3 = "real \<times> real \<times> real"

text \<open>\<open>Vector2.lerp(v, alpha)\<close>: each component moves by \<open>alpha\<close> of its gap to \<open>v\<close>.\<close>

definition lerp2 :: "vec2 \<Rightarrow> vec2 \<Rightarrow> real \<Rightarrow> vec2" where
  "lerp2 a v alpha =
     (fst a + (fst v - fst a) * alpha, snd a + (snd v - snd a) * alpha)"

text \<open>\<open>Vector3.lerp(v, alpha)\<close>.\<close>

definition lerp3 :: "vec3 \<Rightarrow> vec3 \<Rightarrow> real \<Rightarrow> vec3" where
  "lerp3 a v alpha =
     (case a of (ax, ay, az) \<Rightarrow> case v of (vx, vy, vz) \<Rightarrow>
        (ax + (vx - ax) * alpha, ay + (vy - ay) * alpha, az + (vz - az) * alpha))"

text \<open>\<open>Vector3.lerpVectors(v1, v2, alpha)\<close>: the receiver is overwritten.\<close>

definition lerpVectors :: "vec3 \<Rightarrow> vec3 \<Rightarrow> real \<Rightarrow> vec3" where
  "lerpVectors v1 v2 alpha =
     (case v1 of (ax, ay, az) \<Rightarrow> case v2 of (bx, by, bz) \<Rightarrow>
        (ax + (bx - ax) * alpha, ay + (by - ay) * alpha, az + (bz - az) * alpha))"

section \<open>Gesture classifier: utils/gestureUtils.ts\<close>

text \<open>
  The fields of \<open>NormalizedLandmark\<close> are \<open>x\<close>, \<open>y\<close>, \<open>z\<close> and the optional
  \<open>visibility\<close>; they carry the prefix \<open>lm_\<close> here so that \<open>x\<close> and \<open>y\<close> stay
  usable as variables.
\<close>

record NormalizedLandmark =
  lm_x :: real
  lm_y :: real
  lm_z :: real
  lm_visibility :: "real option"

datatype GestureType = NONE | OPEN_PALM | PINCH | FIST | POINTING | THUMB_UP

definition WRIST :: nat where "WRIST = 0"
definition THUMB_TIP :: nat where "THUMB_TIP = 4"
definition INDEX_TIP :: nat where "INDEX_TIP = 8"
definition MIDDLE_TIP :: nat where "MIDDLE_TIP = 12"
definition RING_TIP :: nat where "RING_TIP = 16"
definition PINKY_TIP :: nat where "PINKY_TIP = 20"
definition THUMB_IP :: nat where "THUMB_IP = 3"
definition INDEX_PIP :: nat where "INDEX_PIP = 6"
definition MIDDLE_PIP :: nat where "MIDDLE_PIP = 10"
definition RING_PIP :: nat where "RING_PIP = 14"
definition PINKY_PIP :: nat where "PINKY_PIP = 18"

text \<open>\<open>distance\<close>: the planar distance, \<open>z\<close> is not read.\<close>

definition distance :: "NormalizedLandmark \<Rightarrow> NormalizedLandmark \<Rightarrow> real" where
  "distance p1 p2 = sqrt ((lm_x p1 - lm_x p2)\<^sup>2 + (lm_y p1 - lm_y p2)\<^sup>2)"

text \<open>
  \<open>isFingerExtended\<close>: the tip is further from the wrist than the PIP joint is. Every
  call site passes indices below 21 on a list of at least 21 entries.
\<close>

definition isFingerExtended :: "NormalizedLandmark list \<Rightarrow> nat \<Rightarrow> nat \<Rightarrow> bool" where
  "isFingerExtended landmarks tipIdx pipIdx =
     (let wrist = landmarks ! WRIST;
          tip = landmarks ! tipIdx;
          pip = landmarks ! pipIdx
      in distance wrist tip > distance wrist pip)"

text \<open>
  \<open>detectGesture\<close>. The argument is \<open>None\<close> for a frame that is absent
  (\<open>!landmarks\<close>); the guard then tests \<open>landmarks.length < 21\<close>, and the branches
  follow in the order of the source.
\<close>

definition detectGesture :: "NormalizedLandmark list option \<Rightarrow> GestureType" where
  "detectGesture frame =
     (case frame of
        None \<Rightarrow> NONE
      | Some landmarks \<Rightarrow>
          if length landmarks < 21 then NONE
          else
            let thumbExtended = isFingerExtended landmarks THUMB_TIP THUMB_IP;
                indexExtended = isFingerExtended landmarks INDEX_TIP INDEX_PIP;
                middleExtended = isFingerExtended landmarks MIDDLE_TIP MIDDLE_PIP;
                ringExtended = isFingerExtended landmarks RING_TIP RING_PIP;
                pinkyExtended = isFingerExtended landmarks PINKY_TIP PINKY_PIP;
                pinchDist = distance (landmarks ! THUMB_TIP) (landmarks ! INDEX_TIP)
            in
              if pinchDist < 0.04 then PINCH
              else if \<not> indexExtended \<and> \<not> middleExtended \<and> \<not> ringExtended \<and> \<not> pinkyExtended
                then FIST
              else if indexExtended \<and> \<not> middleExtended \<and> \<not> ringExtended \<and> \<not> pinkyExtended
                then POINTING
              else if indexExtended \<and> middleExtended \<and> ringExtended \<and> pinkyExtended
                then OPEN_PALM
              else if thumbExtended \<and> \<not> indexExtended \<and> \<not> middleExtended
                        \<and> \<not> ringExtended \<and> \<not> pinkyExtended
                then THUMB_UP
              else NONE)"

section \<open>Interaction state machine: components/MarsParticles.tsx\<close>

definition TREE_HEIGHT :: real where "TREE_HEIGHT = 12.0"
definition BASE_RADIUS :: real where "BASE_RADIUS = 5.0"
definition FLICK_THRESHOLD :: real where "FLICK_THRESHOLD = 0.08"
definition PINCH_THRESHOLD :: real where "PINCH_THRESHOLD = 0.06"
definition CENTER_VIEW_POS :: vec3 where "CENTER_VIEW_POS = (0, 0, 8)"

text \<open>\<open>camera.position\<close>, set once to \<open>(0, 0, 15)\<close>.\<close>

definition camera_position :: vec3 where "camera_position = (0, 0, 15)"

subsection \<open>Scene objects\<close>

text \<open>
  A photo is the \<open>THREE.Group\<close> built by \<open>createPhotoMesh\<close> together with its
  \<open>userData\<close>. Its parent in the scene graph is the tree group or the scene itself.
  \<open>border_visible\<close> is the \<open>visible\<close> flag of the child named \<open>border\<close>, which every
  photo has. Orientations (\<open>rotation\<close>, kept in step with \<open>quaternion\<close> by the
  library) are values of a type \<open>'r\<close> that only the library computes with; the program
  copies them.
\<close>

datatype owner = TreeGroup | Scene

record 'r photo =
  position :: vec3
  rotation :: 'r
  scale :: vec3
  border_visible :: bool
  parent :: "owner option"
  originalPos :: vec3
  originalRot :: 'r
  isReturning :: bool

text \<open>
  The operations of three.js that the interaction code calls and that work on matrices
  and quaternions are parameters of the model:
  \<^item> \<open>intersectPlane m\<close>: the point where the ray through the pointer \<open>m\<close>
    (\<open>raycaster.setFromCamera\<close>) meets the interaction plane, as left in \<open>target\<close>;
  \<^item> \<open>lookAt par pos target\<close>: the orientation \<open>Object3D.lookAt\<close> gives an object with
    parent \<open>par\<close> and position \<open>pos\<close>;
  \<^item> \<open>rotateX r angle\<close>: \<open>Object3D.rotateX\<close>;
  \<^item> \<open>attach par rotY sc ph\<close>: the local position, orientation and scale that
    \<open>Object3D.attach\<close> gives \<open>ph\<close> under its new parent \<open>par\<close> so that its world
    transform stays, the tree group having rotation \<open>rotY\<close> and uniform scale \<open>sc\<close>;
  \<^item> \<open>getWorldPosition rotY sc v\<close>, \<open>getWorldQuaternion rotY sc r\<close>: the world pose of
    a child of the tree group with local position \<open>v\<close> and orientation \<open>r\<close>;
  \<^item> \<open>slerp q target t\<close>: \<open>Quaternion.slerp\<close>.
\<close>

record 'r three =
  intersectPlane :: "vec2 \<Rightarrow> vec3"
  lookAt :: "owner option \<Rightarrow> vec3 \<Rightarrow> vec3 \<Rightarrow> 'r"
  rotateX :: "'r \<Rightarrow> real \<Rightarrow> 'r"
  attach :: "owner \<Rightarrow> real \<Rightarrow> real \<Rightarrow> 'r photo \<Rightarrow> vec3 \<times> 'r \<times> vec3"
  getWorldPosition :: "real \<Rightarrow> real \<Rightarrow> vec3 \<Rightarrow> vec3"
  getWorldQuaternion :: "real \<Rightarrow> real \<Rightarrow> 'r \<Rightarrow> 'r"
  slerp :: "'r \<Rightarrow> 'r \<Rightarrow> real \<Rightarrow> 'r"

text \<open>
  The mutable state: the fields of \<open>state.current\<close>, the smoothed pointer \<open>mouse.current\<close>,
  \<open>sceneRefs.current.photos\<close> (a photo is referred to by its index in this list, which
  only grows), the rotation and scale last written to the tree group, the cursor mesh,
  and the React state \<open>statusText\<close>.
\<close>

record 'r state =
  handNdc :: vec2
  prevHandNdc :: vec2
  pinchDist :: real
  prevPinchDist :: real
  isPinching :: bool
  wasPinching :: bool
  isHandDetected :: bool
  viewingPhoto :: "nat option"
  hoveredPhoto :: "nat option"
  treeRotY :: real
  targetRotY :: real
  treeScale :: real
  photoGlobalIndex :: nat
  mouse :: vec2
  photos :: "'r photo list"
  treeGroup_rotation_y :: real
  treeGroup_scale :: real
  cursor_visible :: bool
  cursor_position :: vec3
  cursor_color :: nat
  cursor_scale :: real
  statusText :: string

definition init_state :: "'r state" where
  "init_state =
     \<lparr>handNdc = (0, 0), prevHandNdc = (0, 0), pinchDist = 0, prevPinchDist = 0,
      isPinching = False, wasPinching = False, isHandDetected = False,
      viewingPhoto = None, hoveredPhoto = None,
      treeRotY = 0, targetRotY = 0, treeScale = 1.0, photoGlobalIndex = 0,
      mouse = (0, 0), photos = [],
      treeGroup_rotation_y = 0, treeGroup_scale = 1.0,
      cursor_visible = True, cursor_position = (0, 0, 0), cursor_color = 0xff0000,
      cursor_scale = 1, statusText = ''SYSTEM READY''\<rparr>"

text \<open>An update of the object that the reference \<open>i\<close> points to.\<close>

definition update_photo :: "nat \<Rightarrow> ('r photo \<Rightarrow> 'r photo) \<Rightarrow> 'r state \<Rightarrow> 'r state" where
  "update_photo i f s = s\<lparr>photos := (photos s)[i := f (photos s ! i)]\<rparr>"

text \<open>
  \<open>createPhotoMesh\<close>, lines 242 to 314: the placement on the golden spiral. \<open>rnd\<close> is
  the value of \<open>Math.random()\<close>, read only when the computed height falls below 2.
  The photo is oriented before it has a parent and is then added to the tree group,
  which exists once the scene is set up; the texture and the geometry of the meshes are
  not part of the model.
\<close>

definition createPhotoMesh :: "'r three \<Rightarrow> real \<Rightarrow> 'r state \<Rightarrow> 'r state" where
  "createPhotoMesh L rnd s =
     (let index = photoGlobalIndex s;
          s1 = s\<lparr>photoGlobalIndex := photoGlobalIndex s + 1\<rparr>;
          goldenAngle = pi * (3 - sqrt 5);
          y0 = (TREE_HEIGHT - 2.0) - (real index * 0.8);
          y = (if y0 < 2.0 then max 1.0 ((TREE_HEIGHT - 2.0) - (rnd * (TREE_HEIGHT - 4.0))) else y0);
          r = ((1 - y / TREE_HEIGHT) * BASE_RADIUS) + 0.8;
          theta = real index * goldenAngle;
          pos = (r * cos theta, y, r * sin theta);
          rot = rotateX L (lookAt L None pos (0, y, 0)) (- 0.1);
          photoGroup = \<lparr>position = pos, rotation = rot, scale = (1, 1, 1),
                        border_visible = False, parent = Some TreeGroup,
                        originalPos = pos, originalRot = rot, isReturning = False\<rparr>
      in s1\<lparr>photos := photos s1 @ [photoGroup]\<rparr>)"

subsection \<open>The detector callback\<close>

record Results =
  multiHandLandmarks :: "NormalizedLandmark list list option"

datatype js_error = TypeError

text \<open>
  \<open>hands.onResults\<close>, lines 656 to 675. Reading \<open>thumb.x\<close> or \<open>index.x\<close> of a hand with
  fewer than nine landmarks throws before anything is assigned.
\<close>

definition onResults :: "Results \<Rightarrow> 'r state \<Rightarrow> js_error + 'r state" where
  "onResults results s =
     (case multiHandLandmarks results of
        Some (lm # rest) \<Rightarrow>
          if length lm \<le> 8 then Inl TypeError
          else
            let thumb = lm ! 4;
                index = lm ! 8;
                d = sqrt ((lm_x thumb - lm_x index)\<^sup>2 + (lm_y thumb - lm_y index)\<^sup>2);
                avgX = (lm_x thumb + lm_x index) / 2;
                avgY = (lm_y thumb + lm_y index) / 2
            in Inr (s\<lparr>pinchDist := d,
                      handNdc := (- ((avgX * 2) - 1), - ((avgY * 2) - 1)),
                      isHandDetected := True\<rparr>)
      | _ \<Rightarrow> Inr (s\<lparr>isHandDetected := False\<rparr>))"

subsection \<open>The return animation\<close>

text \<open>
  What the closure \<open>loop\<close> of \<open>returnPhotoToTree\<close> captures: the photo, the dummy target
  placed in the tree group at the photo's original pose, the start values and the
  progress \<open>p\<close>.
\<close>

record 'r anim =
  anim_photo :: nat
  dummy_position :: vec3
  dummy_rotation :: 'r
  startPos :: vec3
  startRot :: 'r
  startScale :: vec3
  anim_p :: real

text \<open>\<open>Object3D.attach\<close> applied to a photo: new parent, local pose from the library.\<close>

definition attach_to :: "'r three \<Rightarrow> owner \<Rightarrow> 'r state \<Rightarrow> 'r photo \<Rightarrow> 'r photo" where
  "attach_to L par s ph =
     (case attach L par (treeGroup_rotation_y s) (treeGroup_scale s) ph of
        (pos, rot, sc) \<Rightarrow> ph\<lparr>position := pos, rotation := rot, scale := sc, parent := Some par\<rparr>)"

text \<open>
  One call of \<open>loop\<close>, lines 616 to 637. The result holds the task again when the loop
  asks for another animation frame (\<open>p < 1\<close>) and \<open>None\<close> when it has finished.
\<close>

definition loop :: "'r three \<Rightarrow> 'r anim \<Rightarrow> 'r state \<Rightarrow> 'r state \<times> 'r anim option" where
  "loop L a s =
     (let p = anim_p a + 0.05;
          ease = 1 - (1 - p) ^ 3;
          tPos = getWorldPosition L (treeGroup_rotation_y s) (treeGroup_scale s) (dummy_position a);
          tRot = getWorldQuaternion L (treeGroup_rotation_y s) (treeGroup_scale s) (dummy_rotation a);
          s1 = update_photo (anim_photo a)
                 (\<lambda>ph. ph\<lparr>position := lerpVectors (startPos a) tPos ease,
                          rotation := slerp L (rotation ph) tRot ease,
                          scale := lerpVectors (startScale a) (1, 1, 1) ease\<rparr>) s
      in if p < 1 then (s1, Some (a\<lparr>anim_p := p\<rparr>))
         else
           (update_photo (anim_photo a)
              (\<lambda>ph. let ph1 = attach_to L TreeGroup s1 ph
                    in ph1\<lparr>position := originalPos ph1, rotation := originalRot ph1,
                           isReturning := False\<rparr>) s1,
            None))"

text \<open>\<open>returnPhotoToTree\<close>, lines 598 to 639; it runs \<open>loop\<close> once itself.\<close>

definition returnPhotoToTree :: "'r three \<Rightarrow> nat \<Rightarrow> 'r state \<Rightarrow> 'r state \<times> 'r anim option" where
  "returnPhotoToTree L photo s =
     (let s1 = s\<lparr>viewingPhoto := None\<rparr>;
          s2 = update_photo photo (\<lambda>ph. ph\<lparr>isReturning := True, border_visible := False\<rparr>) s1;
          ph = photos s2 ! photo;
          a = \<lparr>anim_photo = photo,
               dummy_position = originalPos ph, dummy_rotation = originalRot ph,
               startPos = position ph, startRot = rotation ph, startScale = scale ph,
               anim_p = 0\<rparr>
      in loop L a s2)"

text \<open>
  The calls of \<open>loop\<close> that follow, one per animation frame, with nothing else in
  between: at most \<open>n\<close> of them.
\<close>

fun loop_frames :: "'r three \<Rightarrow> nat \<Rightarrow> 'r anim \<Rightarrow> 'r state \<Rightarrow> 'r state \<times> 'r anim option" where
  "loop_frames L 0 a s = (s, Some a)"
| "loop_frames L (Suc n) a s =
     (case loop L a s of
        (s', None) \<Rightarrow> (s', None)
      | (s', Some a') \<Rightarrow> loop_frames L n a' s')"

subsection \<open>The animation frame\<close>

definition unhover :: "'r photo \<Rightarrow> 'r photo" where
  "unhover obj = obj\<lparr>scale := lerp3 (scale obj) (1, 1, 1) 0.2, border_visible := False\<rparr>"

text \<open>Branch A, lines 499 to 516: a photo is being viewed.\<close>

definition viewing_branch ::
  "'r three \<Rightarrow> nat \<Rightarrow> bool \<Rightarrow> real \<Rightarrow> 'r state \<Rightarrow> 'r state \<times> 'r anim option" where
  "viewing_branch L photo currentPinch pinchVelocity s =
     (if \<not> currentPinch \<and> pinchVelocity > FLICK_THRESHOLD then
        (case returnPhotoToTree L photo s of
           (s', a) \<Rightarrow> (s'\<lparr>statusText := ''RETURNING...''\<rparr>, a))
      else
        (let lookTarget =
               (case CENTER_VIEW_POS of
                  (cx, cy, cz) \<Rightarrow> (cx + fst (mouse s) * 2.0, cy + snd (mouse s) * 2.0, cz));
             s1 = update_photo photo
                    (\<lambda>ph. let ph1 = ph\<lparr>position := lerp3 (position ph) lookTarget 0.1\<rparr>;
                              ph2 = ph1\<lparr>rotation := lookAt L (parent ph1) (position ph1) camera_position\<rparr>
                          in ph2\<lparr>scale := lerp3 (scale ph2) (2.5, 2.5, 2.5) 0.1\<rparr>) s
         in (s1\<lparr>statusText := ''FLICK TO DISMISS''\<rparr>, None)))"

text \<open>Branch B, lines 519 to 538: the pointer is over the photo \<open>hitPhoto\<close>.\<close>

definition hover_branch :: "'r three \<Rightarrow> nat \<Rightarrow> bool \<Rightarrow> 'r state \<Rightarrow> 'r state" where
  "hover_branch L hitPhoto justPinched s =
     (let s1 = (case hoveredPhoto s of
                  Some h \<Rightarrow> if h \<noteq> hitPhoto then update_photo h unhover s else s
                | None \<Rightarrow> s);
          s2 = s1\<lparr>hoveredPhoto := Some hitPhoto\<rparr>;
          s3 = update_photo hitPhoto
                 (\<lambda>ph. ph\<lparr>border_visible := True,
                          scale := lerp3 (scale ph) (1.2, 1.2, 1.2) 0.2\<rparr>) s2;
          s4 = s3\<lparr>cursor_color := 0xffff00\<rparr>
      in if justPinched then
           (let s5 = s4\<lparr>viewingPhoto := Some hitPhoto\<rparr>;
                s6 = update_photo hitPhoto (attach_to L Scene s5) s5
            in s6\<lparr>statusText := ''OPENING...''\<rparr>)
         else s4\<lparr>statusText := ''PINCH TO OPEN''\<rparr>)"

text \<open>The scale a pinch distance asks for, lines 559 and 560.\<close>

definition targetScale :: "real \<Rightarrow> real" where
  "targetScale d = (let spread = min 1 (max 0 ((d - 0.05) / 0.25)) in 0.5 + spread * 1.5)"

text \<open>Branch C, lines 541 to 564: the pointer is over empty space.\<close>

definition tree_branch :: "'r state \<Rightarrow> 'r state" where
  "tree_branch s =
     (let s1 = (case hoveredPhoto s of
                  Some h \<Rightarrow> (update_photo h unhover s)\<lparr>hoveredPhoto := None\<rparr>
                | None \<Rightarrow> s)
      in if isPinching s1 then
           (let deltaX = fst (handNdc s1) - fst (prevHandNdc s1)
            in s1\<lparr>cursor_color := 0x0088ff, cursor_scale := 1.5,
                  targetRotY := targetRotY s1 + deltaX * 4.0,
                  statusText := ''ROTATING TREE''\<rparr>)
         else
           s1\<lparr>treeScale := treeScale s1 + (targetScale (pinchDist s1) - treeScale s1) * 0.08,
              statusText := ''PINCH AIR TO ROTATE''\<rparr>)"

text \<open>
  \<open>animate\<close>, lines 450 to 588, without the shader clock and the star. \<open>hit\<close> is the
  photo that the ray cast through the pointer resolves to, \<open>None\<close> on a miss; the source
  casts the ray only while no photo is viewed. The local variables \<open>cursorColor\<close> and
  \<open>cursorScale\<close> are written to the cursor mesh at the end of the frame; the model keeps
  them in the cursor fields from the start. The second component of the result is the
  return animation that the frame has started, if any.
\<close>

definition animate :: "'r three \<Rightarrow> nat option \<Rightarrow> 'r state \<Rightarrow> 'r state \<times> 'r anim option" where
  "animate L hit s =
     (let currentPinch = pinchDist s < PINCH_THRESHOLD;
          s1 = s\<lparr>isPinching := currentPinch\<rparr>;
          justPinched = (currentPinch \<and> \<not> wasPinching s1);
          pinchVelocity = pinchDist s1 - prevPinchDist s1;
          s2 = s1\<lparr>mouse := lerp2 (mouse s1) (handNdc s1) 0.3,
                  cursor_color := 0xff0000, cursor_scale := 1.0\<rparr>;
          (s3, started) =
            (if isHandDetected s2 then
               (let target = intersectPlane L (mouse s2);
                    s2a = s2\<lparr>cursor_visible := True,
                             cursor_position :=
                               (case target of (tx, ty, tz) \<Rightarrow> (tx, ty, max (- 5) (min 10 tz)))\<rparr>;
                    hitPhoto = (if viewingPhoto s2a = None then hit else None)
                in case viewingPhoto s2a of
                     Some photo \<Rightarrow> viewing_branch L photo currentPinch pinchVelocity s2a
                   | None \<Rightarrow>
                       (case hitPhoto of
                          Some h \<Rightarrow> (hover_branch L h justPinched s2a, None)
                        | None \<Rightarrow> (tree_branch s2a, None)))
             else (s2\<lparr>cursor_visible := False, statusText := ''WAVE HAND TO START''\<rparr>, None));
          s4 = s3\<lparr>treeRotY := treeRotY s3 + (targetRotY s3 - treeRotY s3) * 0.1\<rparr>;
          s5 = s4\<lparr>treeGroup_rotation_y := treeRotY s4, treeGroup_scale := treeScale s4\<rparr>;
          s6 = s5\<lparr>prevHandNdc := handNdc s5, prevPinchDist := pinchDist s5,
                  wasPinching := currentPinch\<rparr>
      in (s6, started))"

subsection \<open>The session: callbacks in any order\<close>

text \<open>
  Everything runs on one thread, as callbacks: a detector result, an animation frame of
  \<open>animate\<close> with the outcome of its ray cast, an animation frame of the \<open>k\<close>-th pending
  return animation, and the arrival of a loaded image. A session is a list of such events
  from the initial state; the pending return animations are kept beside the state.
  An exception thrown by the detector callback ends that callback only.
\<close>

datatype event = Detect Results | Frame "nat option" | Tick nat | Upload real

definition step ::
  "'r three \<Rightarrow> event \<Rightarrow> 'r state \<times> 'r anim list \<Rightarrow> ('r state \<times> 'r anim list) option" where
  "step L ev sys =
     (case sys of (s, tasks) \<Rightarrow>
        (case ev of
           Detect results \<Rightarrow>
             (case onResults results s of Inl e \<Rightarrow> Some (s, tasks) | Inr s' \<Rightarrow> Some (s', tasks))
         | Frame hit \<Rightarrow>
             if (case hit of Some h \<Rightarrow> h < length (photos s) | None \<Rightarrow> True) then
               (case animate L hit s of
                  (s', None) \<Rightarrow> Some (s', tasks)
                | (s', Some a) \<Rightarrow> Some (s', tasks @ [a]))
             else None
         | Tick k \<Rightarrow>
             if k < length tasks then
               (case loop L (tasks ! k) s of
                  (s', None) \<Rightarrow> Some (s', take k tasks @ drop (Suc k) tasks)
                | (s', Some a) \<Rightarrow> Some (s', tasks[k := a]))
             else None
         | Upload rnd \<Rightarrow> Some (createPhotoMesh L rnd s, tasks)))"

fun run ::
  "'r three \<Rightarrow> event list \<Rightarrow> 'r state \<times> 'r anim list \<Rightarrow> ('r state \<times> 'r anim list) option" where
  "run L [] sys = Some sys"
| "run L (ev # evs) sys = (case step L ev sys of None \<Rightarrow> None | Some sys' \<Rightarrow> run L evs sys')"

text \<open>
  The status texts that the frames of a session set, in order: every call of \<open>animate\<close>
  calls \<open>setStatusText\<close> once, and nothing else does after the start.
\<close>

fun emitted :: "'r three \<Rightarrow> event list \<Rightarrow> 'r state \<times> 'r anim list \<Rightarrow> string list" where
  "emitted L [] sys = []"
| "emitted L (ev # evs) sys =
     (case step L ev sys of
        None \<Rightarrow> []
      | Some sys' \<Rightarrow>
          (case ev of Frame hit \<Rightarrow> [statusText (fst sys')] | _ \<Rightarrow> []) @ emitted L evs sys')"

text \<open>
  An instance of the library interface for running the model on concrete inputs: no
  orientations, the tree group at the identity, the pointer ray straight ahead.
\<close>

definition flat_three :: "unit three" where
  "flat_three =
     \<lparr>intersectPlane = (\<lambda>m. (fst m, snd m, 0)),
      lookAt = (\<lambda>par pos target. ()),
      rotateX = (\<lambda>r angle. ()),
      attach = (\<lambda>par rotY sc ph. (position ph, (), scale ph)),
      getWorldPosition = (\<lambda>rotY sc v. v),
      getWorldQuaternion = (\<lambda>rotY sc r. r),
      slerp = (\<lambda>q target t. ())\<rparr>"

text \<open>The clamp of the specification, for comparison with the source's \<open>min\<close> and \<open>max\<close>.\<close>

definition clamp_spec :: "real \<Rightarrow> real \<Rightarrow> real \<Rightarrow> real" where
  "clamp_spec v lo hi = (if v < lo then lo else if hi < v then hi else v)"

text \<open>A landmark at a planar point.\<close>

definition at_xy :: "real \<Rightarrow> real \<Rightarrow> NormalizedLandmark" where
  "at_xy a b = \<lparr>lm_x = a, lm_y = b, lm_z = 0, lm_visibility = None\<rparr>"

text \<open>A hand of 21 landmarks on the row \<open>y = 0.5\<close>: thumb tip at \<open>x = tx\<close>, index tip
  at \<open>x = ix\<close>, every other landmark at the centre; and the detector result holding it.\<close>

definition row_frame :: "real \<Rightarrow> real \<Rightarrow> NormalizedLandmark list" where
  "row_frame tx ix = (replicate 21 (at_xy 0.5 0.5))[4 := at_xy tx 0.5, 8 := at_xy ix 0.5]"

definition hand_row :: "real \<Rightarrow> real \<Rightarrow> Results" where
  "hand_row tx ix = \<lparr>multiHandLandmarks = Some [row_frame tx ix]\<rparr>"

text \<open>The state that a session of events reaches from the initial state, with \<open>flat_three\<close>.\<close>

definition state_after :: "event list \<Rightarrow> unit state" where
  "state_after evs =
     (case run flat_three evs (init_state, []) of Some sys \<Rightarrow> fst sys | None \<Rightarrow> init_state)"

text \<open>The return animations pending after a session.\<close>

definition tasks_after :: "event list \<Rightarrow> unit anim list" where
  "tasks_after evs =
     (case run flat_three evs (init_state, []) of Some sys \<Rightarrow> snd sys | None \<Rightarrow> [])"

text \<open>
  Sample sessions. One photo is loaded and the hand closes to a pinch distance of 0.03
  over it (\<open>hover_events\<close>); the next frame opens the photo (\<open>open_events\<close>); a further
  frame keeps it open (\<open>view_events\<close>); then the hand spreads to a distance of 0.2
  (\<open>flick_events\<close>). With no photo: an open hand at distance 0.15 (\<open>spread_events\<close>); a
  pinch at the left edge (\<open>drag_events\<close>), and the same pinch moved back towards the
  centre one frame later (\<open>drag_back_events\<close>).
\<close>

definition hover_events :: "event list" where
  "hover_events = [Upload 0, Detect (hand_row 0.5 0.53)]"

definition open_events :: "event list" where
  "open_events = [Upload 0, Detect (hand_row 0.5 0.53), Frame (Some 0)]"

definition view_events :: "event list" where
  "view_events = [Upload 0, Detect (hand_row 0.5 0.53), Frame (Some 0), Frame None]"

definition flick_events :: "event list" where
  "flick_events = [Upload 0, Detect (hand_row 0.5 0.53), Frame (Some 0), Frame None,
                   Detect (hand_row 0.4 0.6)]"

definition spread_events :: "event list" where
  "spread_events = [Detect (hand_row 0.4 0.55)]"

definition drag_events :: "event list" where
  "drag_events = [Detect (hand_row 0 0)]"

definition drag_back_events :: "event list" where
  "drag_back_events = [Detect (hand_row 0 0), Frame None, Detect (hand_row 0.35 0.35)]"

text \<open>A hand whose thumb and index tips are 0.05 apart.\<close>

definition near_pinch_frame :: "NormalizedLandmark list" where
  "near_pinch_frame = row_frame 0.5 0.55"

text \<open>
  What follows the dismissing frame in \<open>after_flick_events\<close>: the return animation runs,
  the open hand passes over photo 0 without pinching and then over empty space.
\<close>

definition after_flick_events :: "event list" where
  "after_flick_events = [Tick 0, Detect (hand_row 0.4 0.6), Frame (Some 0), Tick 0, Frame None]"

text \<open>
  The other continuation, \<open>reopen_events\<close>: the returning photo is pinched again and
  flicked again.
\<close>

definition reopen_events :: "event list" where
  "reopen_events = [Detect (hand_row 0.5 0.53), Frame (Some 0),
                    Detect (hand_row 0.4 0.6), Frame None]"

text \<open>
  The flick session continued: the frame that dismisses photo 0, then 18 frames of its
  return animation, which leave it one frame from the end (\<open>returning_events\<close>).
\<close>

definition returning_events :: "event list" where
  "returning_events = [Upload 0, Detect (hand_row 0.5 0.53), Frame (Some 0), Frame None,
                   Detect (hand_row 0.4 0.6), Frame None,
                   Tick 0, Tick 0, Tick 0, Tick 0, Tick 0, Tick 0, Tick 0, Tick 0, Tick 0,
                   Tick 0, Tick 0, Tick 0, Tick 0, Tick 0, Tick 0, Tick 0, Tick 0, Tick 0]"

text \<open>The relation between focus and hover that the sessions keep: a viewed photo is the
  hovered one.\<close>

definition focus_is_hovered :: "'r state \<Rightarrow> bool" where
  "focus_is_hovered s = (viewingPhoto s = None \<or> hoveredPhoto s = viewingPhoto s)"

section \<open>Properties\<close>

lemmas finger_indices =
  WRIST_def THUMB_TIP_def INDEX_TIP_def MIDDLE_TIP_def RING_TIP_def PINKY_TIP_def
  THUMB_IP_def INDEX_PIP_def MIDDLE_PIP_def RING_PIP_def PINKY_PIP_def

lemmas frame_defs = animate_def hover_branch_def tree_branch_def viewing_branch_def
  update_photo_def returnPhotoToTree_def loop_def attach_to_def Let_def

lemma distance_same_row: "lm_y p1 = lm_y p2 \<Longrightarrow> distance p1 p2 = \<bar>lm_x p1 - lm_x p2\<bar>"
  by (simp add: distance_def)

subsection \<open>The gesture classifier\<close>

text \<open>
  C2, as amended. A frame that is absent or has fewer than 21 landmarks is classified
  \<open>NONE\<close>. The guard of \<open>detectGesture\<close> is \<open>landmarks.length < 21\<close>, so this is the
  whole of the fail-closed case.
\<close>

theorem C2_short_or_absent_is_NONE:
  "(case frame of None \<Rightarrow> True | Some landmarks \<Rightarrow> length landmarks < 21) \<Longrightarrow>
   detectGesture frame = NONE"
  by (simp add: detectGesture_def split: option.splits)

theorem C2_short_or_absent_is_NONE_witness:
  "detectGesture None = NONE \<and> detectGesture (Some (replicate 20 (at_xy 0.5 0.5))) = NONE"
  using C2_short_or_absent_is_NONE [of None]
    C2_short_or_absent_is_NONE [of "Some (replicate 20 (at_xy 0.5 0.5))"]
  by simp

text \<open>
  C2, as stated, fails: a frame of 22 landmarks does not have exactly 21 entries, passes
  the guard and is classified like any other hand. With all landmarks at one point the
  thumb and index tips coincide and the result is \<open>PINCH\<close>.
\<close>

theorem C2_long_frame_counterexample:
  "length (replicate 22 (at_xy 0.5 0.5)) \<noteq> 21 \<and>
   detectGesture (Some (replicate 22 (at_xy 0.5 0.5))) = PINCH"
  by (simp add: detectGesture_def Let_def finger_indices distance_same_row at_xy_def)

text \<open>
  C4. On a frame of exactly 21 landmarks whose thumb tip and index tip are less than
  0.04 apart in the plane, the classifier answers \<open>PINCH\<close>, wherever the other
  landmarks are: the pinch test comes first.
\<close>

theorem C4_pinch_has_priority:
  "length landmarks = 21 \<Longrightarrow>
   distance (landmarks ! THUMB_TIP) (landmarks ! INDEX_TIP) < 0.04 \<Longrightarrow>
   detectGesture (Some landmarks) = PINCH"
  by (simp add: detectGesture_def Let_def)

theorem C4_pinch_has_priority_witness:
  "length ((replicate 21 (at_xy 0.5 0.5))[4 := at_xy 0.5 0.5, 8 := at_xy 0.53 0.5,
             12 := at_xy 0.9 0.5]) = 21 \<and>
   distance ((replicate 21 (at_xy 0.5 0.5))[4 := at_xy 0.5 0.5, 8 := at_xy 0.53 0.5,
               12 := at_xy 0.9 0.5] ! THUMB_TIP)
            ((replicate 21 (at_xy 0.5 0.5))[4 := at_xy 0.5 0.5, 8 := at_xy 0.53 0.5,
               12 := at_xy 0.9 0.5] ! INDEX_TIP) < 0.04 \<and>
   detectGesture (Some ((replicate 21 (at_xy 0.5 0.5))[4 := at_xy 0.5 0.5,
                          8 := at_xy 0.53 0.5, 12 := at_xy 0.9 0.5])) = PINCH"
  using C4_pinch_has_priority [of "(replicate 21 (at_xy 0.5 0.5))[4 := at_xy 0.5 0.5,
                                     8 := at_xy 0.53 0.5, 12 := at_xy 0.9 0.5]"]
  by (simp add: finger_indices distance_same_row at_xy_def)

text \<open>
  C9. The classifier never answers \<open>THUMB_UP\<close>: the guard of that branch asks for all
  four non-thumb fingers to be curled, and the \<open>FIST\<close> branch has returned by then.
\<close>

theorem C9_THUMB_UP_unreachable: "detectGesture frame \<noteq> THUMB_UP"
  by (simp add: detectGesture_def Let_def split: option.split)

subsection \<open>Pinching\<close>

text \<open>
  C10. After every frame the pinching flag says whether the thumb-to-index distance in
  the state is below \<open>PINCH_THRESHOLD = 0.06\<close>. The detector callback stores the planar
  distance of the frame's thumb and index tips there, and the classifier asks for less
  than 0.04: on a hand whose distance lies in \<open>[0.04, 0.06)\<close> the state machine is
  pinching and the classifier does not answer \<open>PINCH\<close>.
\<close>

theorem C10_pinching_threshold:
  "isPinching (fst (animate L hit s)) = (pinchDist s < 0.06) \<and>
   (21 \<le> length lm \<longrightarrow>
      (case onResults \<lparr>multiHandLandmarks = Some (lm # rest)\<rparr> s of
         Inl e \<Rightarrow> False
       | Inr s1 \<Rightarrow>
           pinchDist s1 = distance (lm ! THUMB_TIP) (lm ! INDEX_TIP) \<and>
           (0.04 \<le> distance (lm ! THUMB_TIP) (lm ! INDEX_TIP) \<and>
            distance (lm ! THUMB_TIP) (lm ! INDEX_TIP) < 0.06 \<longrightarrow>
              isPinching (fst (animate L hit s1)) \<and> detectGesture (Some lm) \<noteq> PINCH)))"
proof (intro conjI impI)
  show "isPinching (fst (animate L hit s)) = (pinchDist s < 0.06)"
    by (simp add: frame_defs PINCH_THRESHOLD_def split: option.splits prod.splits)
next
  assume len: "21 \<le> length lm"
  let ?d = "distance (lm ! THUMB_TIP) (lm ! INDEX_TIP)"
  let ?s1 = "s\<lparr>pinchDist := ?d,
               handNdc := (- (((lm_x (lm ! 4) + lm_x (lm ! 8)) / 2 * 2) - 1),
                           - (((lm_y (lm ! 4) + lm_y (lm ! 8)) / 2 * 2) - 1)),
               isHandDetected := True\<rparr>"
  have o: "onResults \<lparr>multiHandLandmarks = Some (lm # rest)\<rparr> s = Inr ?s1"
    using len by (simp add: onResults_def Let_def distance_def finger_indices)
  have d: "0.04 \<le> ?d \<and> ?d < 0.06 \<longrightarrow>
             isPinching (fst (animate L hit ?s1)) \<and> detectGesture (Some lm) \<noteq> PINCH"
  proof
    assume r: "0.04 \<le> ?d \<and> ?d < 0.06"
    have "isPinching (fst (animate L hit ?s1)) = (pinchDist ?s1 < PINCH_THRESHOLD)"
      by (simp add: frame_defs split: option.splits prod.splits)
    with r have a: "isPinching (fst (animate L hit ?s1))" by (simp add: PINCH_THRESHOLD_def)
    from r len have b: "detectGesture (Some lm) \<noteq> PINCH"
      by (simp add: detectGesture_def Let_def)
    from a b show "isPinching (fst (animate L hit ?s1)) \<and> detectGesture (Some lm) \<noteq> PINCH" ..
  qed
  from d show "case onResults \<lparr>multiHandLandmarks = Some (lm # rest)\<rparr> s of
         Inl e \<Rightarrow> False
       | Inr s1 \<Rightarrow>
           pinchDist s1 = ?d \<and>
           (0.04 \<le> ?d \<and> ?d < 0.06 \<longrightarrow>
              isPinching (fst (animate L hit s1)) \<and> detectGesture (Some lm) \<noteq> PINCH)"
    unfolding o by simp
qed

subsection \<open>Hovering and opening\<close>

text \<open>
  C6. A frame with a hand detected, no photo viewed and the pointer on photo \<open>h\<close>: when
  a pinch begins in this frame (the distance is below the threshold and the previous
  frame was not pinching), \<open>h\<close> becomes the viewed photo, its parent is the scene and the
  status is OPENING; in every other case nothing is viewed and the status is
  PINCH TO OPEN.
\<close>

theorem C6_pinch_opens_hovered:
  assumes "isHandDetected s" and "viewingPhoto s = None" and "h < length (photos s)"
  shows "(pinchDist s < PINCH_THRESHOLD \<and> \<not> wasPinching s \<longrightarrow>
            viewingPhoto (fst (animate L (Some h) s)) = Some h \<and>
            parent (photos (fst (animate L (Some h) s)) ! h) = Some Scene \<and>
            statusText (fst (animate L (Some h) s)) = ''OPENING...'') \<and>
         (\<not> (pinchDist s < PINCH_THRESHOLD \<and> \<not> wasPinching s) \<longrightarrow>
            viewingPhoto (fst (animate L (Some h) s)) = None \<and>
            statusText (fst (animate L (Some h) s)) = ''PINCH TO OPEN'')"
  using assms
  by (auto simp add: frame_defs split: option.splits prod.splits)

subsection \<open>Scaling and rotating the tree\<close>

lemma targetScale_clamp:
  "targetScale d = 0.5 + clamp_spec ((d - 0.05) / 0.25) 0 1 * 1.5"
  by (simp add: targetScale_def clamp_spec_def min_def max_def)

lemma tree_branch_scale:
  assumes "isHandDetected s" and "viewingPhoto s = None" and "\<not> pinchDist s < PINCH_THRESHOLD"
  shows "treeScale (fst (animate L None s)) =
           treeScale s + (targetScale (pinchDist s) - treeScale s) * 0.08"
    and "statusText (fst (animate L None s)) = ''PINCH AIR TO ROTATE''"
  using assms
  by (auto simp add: frame_defs split: option.splits prod.splits)

lemma eased_not_snapped:
  fixes t T :: real
  assumes "t \<noteq> T"
  shows "t + (T - t) * 0.08 \<noteq> T"
proof
  assume "t + (T - t) * 0.08 = T"
  then have "T = t" by (simp add: field_simps)
  then show False using assms by simp
qed

text \<open>
  C7. A frame with a hand detected, nothing viewed, nothing hit and no pinch: the tree
  scale moves by the fraction 0.08 of its gap to the target
  \<open>0.5 + clamp((pinchDist - 0.05) / 0.25, 0, 1) * 1.5\<close>, so it does not reach a target it
  was not at; the status is PINCH AIR TO ROTATE; at distance 0.15 the target is 1.1.
\<close>

theorem C7_scale_eases_to_target:
  assumes "isHandDetected s" and "viewingPhoto s = None" and "\<not> pinchDist s < PINCH_THRESHOLD"
  shows "treeScale (fst (animate L None s)) =
           treeScale s +
             ((0.5 + clamp_spec ((pinchDist s - 0.05) / 0.25) 0 1 * 1.5) - treeScale s) * 0.08 \<and>
         statusText (fst (animate L None s)) = ''PINCH AIR TO ROTATE'' \<and>
         (treeScale s \<noteq> 0.5 + clamp_spec ((pinchDist s - 0.05) / 0.25) 0 1 * 1.5 \<longrightarrow>
            treeScale (fst (animate L None s)) \<noteq>
              0.5 + clamp_spec ((pinchDist s - 0.05) / 0.25) 0 1 * 1.5) \<and>
         (pinchDist s = 0.15 \<longrightarrow>
            0.5 + clamp_spec ((pinchDist s - 0.05) / 0.25) 0 1 * 1.5 = 1.1)"
proof -
  let ?T = "0.5 + clamp_spec ((pinchDist s - 0.05) / 0.25) 0 1 * 1.5"
  have eq: "treeScale (fst (animate L None s)) = treeScale s + (?T - treeScale s) * 0.08"
    using tree_branch_scale(1) [OF assms] by (simp only: targetScale_clamp)
  have st: "statusText (fst (animate L None s)) = ''PINCH AIR TO ROTATE''"
    by (rule tree_branch_scale(2) [OF assms])
  have ns: "treeScale s \<noteq> ?T \<longrightarrow> treeScale (fst (animate L None s)) \<noteq> ?T"
    unfolding eq using eased_not_snapped [of "treeScale s" ?T] by blast
  have ex: "pinchDist s = 0.15 \<longrightarrow> ?T = 1.1"
    by (simp add: clamp_spec_def)
  from eq st ns ex show ?thesis by blast
qed

text \<open>
  C8, as amended. A frame with a hand detected, nothing viewed, nothing hit and a pinch:
  the target rotation grows by four times the horizontal displacement of the raw hand
  position \<open>handNdc\<close> since the previous frame, and the status is ROTATING TREE. The
  smoothed pointer \<open>mouse\<close> is not read here.
\<close>

theorem C8_rotation_follows_raw_hand:
  assumes "isHandDetected s" and "viewingPhoto s = None" and "pinchDist s < PINCH_THRESHOLD"
  shows "targetRotY (fst (animate L None s)) =
           targetRotY s + (fst (handNdc s) - fst (prevHandNdc s)) * 4 \<and>
         statusText (fst (animate L None s)) = ''ROTATING TREE''"
  using assms
  by (auto simp add: frame_defs split: option.splits prod.splits)

subsection \<open>Viewing and dismissing\<close>

lemma animate_status_RETURNING:
  "statusText (fst (animate L hit s)) = ''RETURNING...'' \<longleftrightarrow>
     isHandDetected s \<and> viewingPhoto s \<noteq> None \<and>
     \<not> pinchDist s < PINCH_THRESHOLD \<and> pinchDist s - prevPinchDist s > FLICK_THRESHOLD"
  by (auto simp add: frame_defs split: option.splits prod.splits)

lemma onResults_focus:
  "onResults r s = Inr s' \<Longrightarrow>
   viewingPhoto s' = viewingPhoto s \<and> hoveredPhoto s' = hoveredPhoto s"
  by (auto simp add: onResults_def Let_def split: option.splits list.splits if_splits)

lemma loop_focus:
  "viewingPhoto (fst (loop L a s)) = viewingPhoto s"
  "hoveredPhoto (fst (loop L a s)) = hoveredPhoto s"
  by (simp_all add: loop_def update_photo_def Let_def)

lemma createPhotoMesh_focus:
  "viewingPhoto (createPhotoMesh L rnd s) = viewingPhoto s"
  "hoveredPhoto (createPhotoMesh L rnd s) = hoveredPhoto s"
  by (simp_all add: createPhotoMesh_def Let_def)

lemma flick_step:
  assumes "isHandDetected s" and "viewingPhoto s = Some i" and "i < length (photos s)"
    and "\<not> pinchDist s < PINCH_THRESHOLD" and "pinchDist s - prevPinchDist s > FLICK_THRESHOLD"
  shows "viewingPhoto (fst (animate L hit s)) = None"
    and "statusText (fst (animate L hit s)) = ''RETURNING...''"
    and "isReturning (photos (fst (animate L hit s)) ! i)"
    and "\<exists>a. snd (animate L hit s) = Some a \<and> anim_photo a = i"
  using assms
  by (auto simp add: frame_defs split: option.splits prod.splits)

lemma hold_step:
  assumes "isHandDetected s" and "viewingPhoto s = Some i"
    and "\<not> (\<not> pinchDist s < PINCH_THRESHOLD \<and> pinchDist s - prevPinchDist s > FLICK_THRESHOLD)"
  shows "viewingPhoto (fst (animate L hit s)) = Some i"
    and "statusText (fst (animate L hit s)) = ''FLICK TO DISMISS''"
    and "snd (animate L hit s) = None"
  using assms
  by (auto simp add: frame_defs split: option.splits prod.splits)

text \<open>Over a session: while nothing is viewed and no frame opens a photo, no frame sets
  RETURNING; a frame that sets it leaves nothing viewed.\<close>

lemma animate_unfocused:
  assumes "viewingPhoto s = None"
  shows "statusText (fst (animate L hit s)) \<noteq> ''RETURNING...''"
    and "statusText (fst (animate L hit s)) \<noteq> ''OPENING...'' \<Longrightarrow>
           viewingPhoto (fst (animate L hit s)) = None"
  using assms
  by (auto simp add: frame_defs split: option.splits prod.splits if_splits)

lemma step_unfocused:
  assumes "step L ev (s, tasks) = Some sys'" and "viewingPhoto s = None"
  shows "case ev of
           Frame hit \<Rightarrow>
             statusText (fst sys') \<noteq> ''RETURNING...'' \<and>
             (statusText (fst sys') \<noteq> ''OPENING...'' \<longrightarrow> viewingPhoto (fst sys') = None)
         | _ \<Rightarrow> viewingPhoto (fst sys') = None"
proof (cases ev)
  case (Detect r)
  with assms(1) have "fst sys' = s \<or> onResults r s = Inr (fst sys')"
    by (auto simp add: step_def split: sum.splits)
  with assms(2) onResults_focus [of r s "fst sys'"] Detect show ?thesis by auto
next
  case (Frame hit)
  with assms(1) have "fst sys' = fst (animate L hit s)"
    by (auto simp add: step_def split: if_splits prod.splits option.splits)
  with animate_unfocused [OF assms(2), of L hit] Frame show ?thesis by simp
next
  case (Tick k)
  with assms(1) have "fst sys' = fst (loop L (tasks ! k) s)"
    by (auto simp add: step_def split: if_splits prod.splits option.splits)
  with assms(2) Tick show ?thesis by (simp add: loop_focus)
next
  case (Upload rnd)
  with assms show ?thesis by (auto simp add: step_def createPhotoMesh_focus)
qed

lemma unfocused_never_returning:
  "viewingPhoto (fst sys) = None \<Longrightarrow> ''OPENING...'' \<notin> set (emitted L evs sys) \<Longrightarrow>
   ''RETURNING...'' \<notin> set (emitted L evs sys)"
proof (induction evs arbitrary: sys)
  case Nil
  then show ?case by simp
next
  case (Cons ev evs)
  show ?case
  proof (cases "step L ev sys")
    case None
    then show ?thesis by simp
  next
    case (Some sys')
    from step_unfocused [of L ev "fst sys" "snd sys" sys'] Some Cons.prems(1)
    have su: "case ev of
           Frame hit \<Rightarrow>
             statusText (fst sys') \<noteq> ''RETURNING...'' \<and>
             (statusText (fst sys') \<noteq> ''OPENING...'' \<longrightarrow> viewingPhoto (fst sys') = None)
         | _ \<Rightarrow> viewingPhoto (fst sys') = None" by simp
    from Cons.prems(2) Some have no: "''OPENING...'' \<notin> set (emitted L evs sys')"
      by (auto split: event.splits)
    have v: "viewingPhoto (fst sys') = None"
    proof (cases ev)
      case (Frame hit)
      with Cons.prems(2) Some have "statusText (fst sys') \<noteq> ''OPENING...''"
        by (cases sys') auto
      with su Frame show ?thesis by simp
    qed (use su in auto)
    from Cons.IH [OF v no] have "''RETURNING...'' \<notin> set (emitted L evs sys')" .
    with su Some show ?thesis by (auto split: event.splits)
  qed
qed

lemma step_Frame:
  assumes "case hit of Some h \<Rightarrow> h < length (photos s) | None \<Rightarrow> True"
  shows "\<exists>tasks'. step L (Frame hit) (s, tasks) = Some (fst (animate L hit s), tasks')"
proof (cases "animate L hit s")
  case (Pair s' started)
  with assms show ?thesis
    by (cases started) (simp_all add: step_def)
qed

lemma animate_returning_clears:
  "statusText (fst (animate L hit s)) = ''RETURNING...'' \<Longrightarrow>
   viewingPhoto (fst (animate L hit s)) = None"
  by (auto simp add: frame_defs split: option.splits prod.splits if_splits)

lemma returning_at_most_once:
  "''OPENING...'' \<notin> set (emitted L evs sys) \<Longrightarrow>
   count_list (emitted L evs sys) ''RETURNING...'' \<le> 1"
proof (induction evs arbitrary: sys)
  case Nil
  then show ?case by simp
next
  case (Cons ev evs)
  show ?case
  proof (cases "step L ev sys")
    case None
    then show ?thesis by simp
  next
    case (Some sys')
    from Cons.prems Some have no: "''OPENING...'' \<notin> set (emitted L evs sys')"
      by (auto split: event.splits)
    note ih = Cons.IH [OF no]
    show ?thesis
    proof (cases ev)
      case (Frame hit)
      from Some Frame have f: "fst sys' = fst (animate L hit (fst sys))"
        by (cases sys) (auto simp add: step_def split: if_splits prod.splits option.splits)
      from Some Frame have e: "emitted L (ev # evs) sys = statusText (fst sys') # emitted L evs sys'"
        by simp
      show ?thesis
      proof (cases "statusText (fst sys') = ''RETURNING...''")
        case True
        with f animate_returning_clears [of L hit "fst sys"]
        have "viewingPhoto (fst sys') = None" by simp
        from unfocused_never_returning [OF this no]
        have "count_list (emitted L evs sys') ''RETURNING...'' = 0" by simp
        with e True show ?thesis by simp
      next
        case False
        with e ih show ?thesis by simp
      qed
    qed (use Some ih in auto)
  qed
qed

lemma flick_emits_once:
  assumes "isHandDetected s" and "viewingPhoto s = Some i" and "i < length (photos s)"
    and "\<not> pinchDist s < PINCH_THRESHOLD" and "pinchDist s - prevPinchDist s > FLICK_THRESHOLD"
    and "case hit of Some h \<Rightarrow> h < length (photos s) | None \<Rightarrow> True"
    and "''OPENING...'' \<notin> set (emitted L (Frame hit # evs) (s, tasks))"
  shows "count_list (emitted L (Frame hit # evs) (s, tasks)) ''RETURNING...'' = 1"
proof -
  note fs = flick_step [OF assms(1-5), of L hit]
  from step_Frame [OF assms(6), of L tasks]
  obtain tasks' where st: "step L (Frame hit) (s, tasks) = Some (fst (animate L hit s), tasks')"
    by blast
  let ?sys' = "(fst (animate L hit s), tasks')"
  from st have e: "emitted L (Frame hit # evs) (s, tasks) =
      statusText (fst (animate L hit s)) # emitted L evs ?sys'" by simp
  from assms(7) have "''OPENING...'' \<notin> set (emitted L evs ?sys')" unfolding e by simp
  with unfocused_never_returning [of ?sys' L evs] fs(1)
  have "''RETURNING...'' \<notin> set (emitted L evs ?sys')" by simp
  then have "count_list (emitted L evs ?sys') ''RETURNING...'' = 0" by simp
  with e fs(2) show ?thesis by simp
qed

text \<open>
  C3. A frame with a hand detected while photo \<open>i\<close> is viewed. If the hand is not
  pinching and the pinch distance grew by more than \<open>FLICK_THRESHOLD\<close> since the previous
  frame, the frame starts the return animation of \<open>i\<close> (the photo is marked returning and
  a task for it is pending), clears the focus and sets the status RETURNING; the next
  frame, whatever the detector reported in between, does not set RETURNING again; and
  over every session that begins with this frame and in which no frame opens a photo
  (none sets OPENING), whatever detector results, frames, animation ticks and uploads it
  holds, RETURNING is set exactly once. Otherwise \<open>i\<close> stays viewed, the status is
  FLICK TO DISMISS and no animation starts. From any state, a session in which no frame
  opens a photo sets RETURNING at most once.
\<close>

theorem C3_flick_dismisses_once:
  assumes "isHandDetected s" and "viewingPhoto s = Some i" and "i < length (photos s)"
  shows "(\<not> pinchDist s < PINCH_THRESHOLD \<and> pinchDist s - prevPinchDist s > FLICK_THRESHOLD \<longrightarrow>
            viewingPhoto (fst (animate L hit s)) = None \<and>
            statusText (fst (animate L hit s)) = ''RETURNING...'' \<and>
            isReturning (photos (fst (animate L hit s)) ! i) \<and>
            (\<exists>a. snd (animate L hit s) = Some a \<and> anim_photo a = i) \<and>
            (\<forall>r hit'. statusText (fst (animate L hit'
                 (case onResults r (fst (animate L hit s)) of
                    Inl e \<Rightarrow> fst (animate L hit s) | Inr s' \<Rightarrow> s'))) \<noteq> ''RETURNING...'') \<and>
            (\<forall>tasks evs.
               (case hit of Some h \<Rightarrow> h < length (photos s) | None \<Rightarrow> True) \<longrightarrow>
               ''OPENING...'' \<notin> set (emitted L (Frame hit # evs) (s, tasks)) \<longrightarrow>
               count_list (emitted L (Frame hit # evs) (s, tasks)) ''RETURNING...'' = 1)) \<and>
         (\<not> (\<not> pinchDist s < PINCH_THRESHOLD \<and> pinchDist s - prevPinchDist s > FLICK_THRESHOLD) \<longrightarrow>
            viewingPhoto (fst (animate L hit s)) = Some i \<and>
            statusText (fst (animate L hit s)) = ''FLICK TO DISMISS'' \<and>
            snd (animate L hit s) = None) \<and>
         (\<forall>tasks evs.
            ''OPENING...'' \<notin> set (emitted L evs (s, tasks)) \<longrightarrow>
            count_list (emitted L evs (s, tasks)) ''RETURNING...'' \<le> 1)"
proof (intro conjI impI)
  assume f: "\<not> pinchDist s < PINCH_THRESHOLD \<and> pinchDist s - prevPinchDist s > FLICK_THRESHOLD"
  then have f1: "\<not> pinchDist s < PINCH_THRESHOLD"
    and f2: "pinchDist s - prevPinchDist s > FLICK_THRESHOLD"
    by simp_all
  note fs = flick_step [OF assms f1 f2, of L hit]
  show "viewingPhoto (fst (animate L hit s)) = None" by (rule fs(1))
  show "statusText (fst (animate L hit s)) = ''RETURNING...''" by (rule fs(2))
  show "isReturning (photos (fst (animate L hit s)) ! i)" by (rule fs(3))
  show "\<exists>a. snd (animate L hit s) = Some a \<and> anim_photo a = i" by (rule fs(4))
  show "\<forall>r hit'. statusText (fst (animate L hit'
                 (case onResults r (fst (animate L hit s)) of
                    Inl e \<Rightarrow> fst (animate L hit s) | Inr s' \<Rightarrow> s'))) \<noteq> ''RETURNING...''"
  proof (intro allI)
    fix r hit'
    have "viewingPhoto (case onResults r (fst (animate L hit s)) of
                    Inl e \<Rightarrow> fst (animate L hit s) | Inr s' \<Rightarrow> s') = None"
      using fs(1) by (auto split: sum.splits dest: onResults_focus)
    then show "statusText (fst (animate L hit'
                 (case onResults r (fst (animate L hit s)) of
                    Inl e \<Rightarrow> fst (animate L hit s) | Inr s' \<Rightarrow> s'))) \<noteq> ''RETURNING...''"
      by (simp add: animate_status_RETURNING)
  qed
  show "\<forall>tasks evs.
               (case hit of Some h \<Rightarrow> h < length (photos s) | None \<Rightarrow> True) \<longrightarrow>
               ''OPENING...'' \<notin> set (emitted L (Frame hit # evs) (s, tasks)) \<longrightarrow>
               count_list (emitted L (Frame hit # evs) (s, tasks)) ''RETURNING...'' = 1"
    using flick_emits_once [OF assms f1 f2, of hit L] by blast
next
  assume n: "\<not> (\<not> pinchDist s < PINCH_THRESHOLD \<and> pinchDist s - prevPinchDist s > FLICK_THRESHOLD)"
  note hs = hold_step [OF assms(1,2) n, of L hit]
  show "viewingPhoto (fst (animate L hit s)) = Some i" by (rule hs(1))
  show "statusText (fst (animate L hit s)) = ''FLICK TO DISMISS''" by (rule hs(2))
  show "snd (animate L hit s) = None" by (rule hs(3))
next
  show "\<forall>tasks evs.
            ''OPENING...'' \<notin> set (emitted L evs (s, tasks)) \<longrightarrow>
            count_list (emitted L evs (s, tasks)) ''RETURNING...'' \<le> 1"
    using returning_at_most_once [of L] by blast
qed

subsection \<open>The return animation\<close>

lemma loop_finish:
  assumes "anim_photo a < length (photos s)" and "\<not> anim_p a + 0.05 < 1"
  shows "snd (loop L a s) = None"
    and "position (photos (fst (loop L a s)) ! anim_photo a) = originalPos (photos s ! anim_photo a)"
    and "rotation (photos (fst (loop L a s)) ! anim_photo a) = originalRot (photos s ! anim_photo a)"
    and "originalPos (photos (fst (loop L a s)) ! anim_photo a) = originalPos (photos s ! anim_photo a)"
    and "originalRot (photos (fst (loop L a s)) ! anim_photo a) = originalRot (photos s ! anim_photo a)"
    and "parent (photos (fst (loop L a s)) ! anim_photo a) = Some TreeGroup"
    and "\<not> isReturning (photos (fst (loop L a s)) ! anim_photo a)"
  using assms
  by (auto simp add: loop_def update_photo_def attach_to_def Let_def split: prod.splits)

lemma loop_continue:
  assumes "loop L a s = (s', Some a')"
  shows "a' = a\<lparr>anim_p := anim_p a + 0.05\<rparr>" and "anim_p a + 0.05 < 1"
    and "length (photos s') = length (photos s)"
    and "anim_photo a < length (photos s) \<Longrightarrow>
           originalPos (photos s' ! anim_photo a) = originalPos (photos s ! anim_photo a) \<and>
           originalRot (photos s' ! anim_photo a) = originalRot (photos s ! anim_photo a)"
  using assms
  by (auto simp add: loop_def update_photo_def Let_def split: if_splits)

lemma loop_step_pending:
  "anim_p a + 0.05 < 1 \<Longrightarrow> snd (loop L a s) = Some (a\<lparr>anim_p := anim_p a + 0.05\<rparr>)"
  by (simp add: loop_def Let_def)

text \<open>Enough animation frames finish the loop: \<open>n\<close> of them when \<open>p + 0.05 n\<close> reaches 1.\<close>

lemma loop_frames_completes:
  "anim_photo a < length (photos s) \<Longrightarrow> 0 < n \<Longrightarrow> 1 \<le> anim_p a + 0.05 * real n \<Longrightarrow>
   snd (loop_frames L n a s) = None \<and>
   position (photos (fst (loop_frames L n a s)) ! anim_photo a) = originalPos (photos s ! anim_photo a) \<and>
   rotation (photos (fst (loop_frames L n a s)) ! anim_photo a) = originalRot (photos s ! anim_photo a) \<and>
   parent (photos (fst (loop_frames L n a s)) ! anim_photo a) = Some TreeGroup \<and>
   \<not> isReturning (photos (fst (loop_frames L n a s)) ! anim_photo a)"
proof (induction n arbitrary: a s)
  case 0
  then show ?case by simp
next
  case (Suc n)
  obtain s' r where l: "loop L a s = (s', r)" by (cases "loop L a s")
  show ?case
  proof (cases "anim_p a + 0.05 < 1")
    case False
    from loop_finish [OF Suc.prems(1) False, of L] l have "r = None" by simp
    with loop_finish [OF Suc.prems(1) False, of L] l show ?thesis by simp
  next
    case True
    let ?a' = "a\<lparr>anim_p := anim_p a + 0.05\<rparr>"
    from loop_step_pending [OF True, of L s] l have l': "loop L a s = (s', Some ?a')" by simp
    note lc = loop_continue [OF l']
    from True Suc.prems(3) have n: "0 < n" by (cases n) auto
    have p: "1 \<le> anim_p ?a' + 0.05 * real n" using Suc.prems(3) by (simp add: field_simps)
    have len: "anim_photo ?a' < length (photos s')" using lc(3) Suc.prems(1) by simp
    from Suc.IH [OF len n p] lc(4) [OF Suc.prems(1)] l' show ?thesis by simp
  qed
qed

lemma returnPhotoToTree_starts:
  assumes "i < length (photos s)"
  shows "\<exists>s1 a1. returnPhotoToTree L i s = (s1, Some a1) \<and> anim_photo a1 = i \<and>
           anim_p a1 = 0.05 \<and> length (photos s1) = length (photos s) \<and>
           originalPos (photos s1 ! i) = originalPos (photos s ! i) \<and>
           originalRot (photos s1 ! i) = originalRot (photos s ! i)"
  using assms
  by (simp add: returnPhotoToTree_def loop_def update_photo_def Let_def)

text \<open>
  C5. The call of \<open>loop\<close> in which the progress reaches 1 leaves the photo with its
  position and rotation equal to the recorded \<open>originalPos\<close> and \<open>originalRot\<close> (which the
  animation never changes), with the tree group as its parent and with \<open>isReturning\<close>
  cleared, and asks for no further frame. Every return animation gets there: after
  \<open>returnPhotoToTree\<close>, a number of animation frames ends it in that state.
\<close>

theorem C5_return_snaps_to_original:
  assumes "i < length (photos s)"
  shows "(anim_photo a = i \<and> \<not> anim_p a + 0.05 < 1 \<longrightarrow>
            snd (loop L a s) = None \<and>
            position (photos (fst (loop L a s)) ! i) = originalPos (photos s ! i) \<and>
            rotation (photos (fst (loop L a s)) ! i) = originalRot (photos s ! i) \<and>
            originalPos (photos (fst (loop L a s)) ! i) = originalPos (photos s ! i) \<and>
            originalRot (photos (fst (loop L a s)) ! i) = originalRot (photos s ! i) \<and>
            parent (photos (fst (loop L a s)) ! i) = Some TreeGroup \<and>
            \<not> isReturning (photos (fst (loop L a s)) ! i)) \<and>
         (\<exists>s1 a1 n s2. returnPhotoToTree L i s = (s1, Some a1) \<and>
            loop_frames L n a1 s1 = (s2, None) \<and>
            position (photos s2 ! i) = originalPos (photos s ! i) \<and>
            rotation (photos s2 ! i) = originalRot (photos s ! i) \<and>
            parent (photos s2 ! i) = Some TreeGroup \<and>
            \<not> isReturning (photos s2 ! i))"
proof (rule conjI, rule impI)
  assume h: "anim_photo a = i \<and> \<not> anim_p a + 0.05 < 1"
  then have len: "anim_photo a < length (photos s)" and fin: "\<not> anim_p a + 0.05 < 1"
    using assms by simp_all
  from loop_finish [OF len fin, of L] h
  show "snd (loop L a s) = None \<and>
            position (photos (fst (loop L a s)) ! i) = originalPos (photos s ! i) \<and>
            rotation (photos (fst (loop L a s)) ! i) = originalRot (photos s ! i) \<and>
            originalPos (photos (fst (loop L a s)) ! i) = originalPos (photos s ! i) \<and>
            originalRot (photos (fst (loop L a s)) ! i) = originalRot (photos s ! i) \<and>
            parent (photos (fst (loop L a s)) ! i) = Some TreeGroup \<and>
            \<not> isReturning (photos (fst (loop L a s)) ! i)"
    by simp
next
  from returnPhotoToTree_starts [OF assms, of L]
  obtain s1 a1 where st: "returnPhotoToTree L i s = (s1, Some a1)" "anim_photo a1 = i"
    "anim_p a1 = 0.05" "length (photos s1) = length (photos s)"
    "originalPos (photos s1 ! i) = originalPos (photos s ! i)"
    "originalRot (photos s1 ! i) = originalRot (photos s ! i)"
    by blast
  have len: "anim_photo a1 < length (photos s1)" using st assms by simp
  have p: "1 \<le> anim_p a1 + 0.05 * real (19::nat)" using st(3) by simp
  obtain s2 r where lf: "loop_frames L 19 a1 s1 = (s2, r)" by (cases "loop_frames L 19 a1 s1")
  from loop_frames_completes [OF len _ p, of L] lf st
  have "r = None \<and> position (photos s2 ! i) = originalPos (photos s ! i) \<and>
            rotation (photos s2 ! i) = originalRot (photos s ! i) \<and>
            parent (photos s2 ! i) = Some TreeGroup \<and>
            \<not> isReturning (photos s2 ! i)" by simp
  with st(1) lf
  show "\<exists>s1 a1 n s2. returnPhotoToTree L i s = (s1, Some a1) \<and>
            loop_frames L n a1 s1 = (s2, None) \<and>
            position (photos s2 ! i) = originalPos (photos s ! i) \<and>
            rotation (photos s2 ! i) = originalRot (photos s ! i) \<and>
            parent (photos s2 ! i) = Some TreeGroup \<and>
            \<not> isReturning (photos s2 ! i)" by blast
qed

subsection \<open>Focus and hover over a session\<close>

lemma animate_focus: "focus_is_hovered s \<Longrightarrow> focus_is_hovered (fst (animate L hit s))"
  by (auto simp add: focus_is_hovered_def frame_defs split: option.splits prod.splits if_splits)

lemma step_focus:
  assumes "step L ev (s, tasks) = Some (s', tasks')" and "focus_is_hovered s"
  shows "focus_is_hovered s'"
proof (cases ev)
  case (Detect r)
  with assms(1) have "s' = s \<or> onResults r s = Inr s'"
    by (auto simp add: step_def split: sum.splits)
  with assms(2) onResults_focus [of r s s'] show ?thesis
    by (auto simp add: focus_is_hovered_def)
next
  case (Frame hit)
  with assms(1) have "s' = fst (animate L hit s)"
    by (auto simp add: step_def split: if_splits prod.splits option.splits)
  with animate_focus [OF assms(2)] show ?thesis by simp
next
  case (Tick k)
  with assms(1) have "s' = fst (loop L (tasks ! k) s)"
    by (auto simp add: step_def split: if_splits prod.splits option.splits)
  with assms(2) show ?thesis by (simp add: focus_is_hovered_def loop_focus)
next
  case (Upload rnd)
  with assms show ?thesis
    by (auto simp add: step_def focus_is_hovered_def createPhotoMesh_focus)
qed

lemma run_focus:
  "run L evs sys = Some sys' \<Longrightarrow> focus_is_hovered (fst sys) \<Longrightarrow> focus_is_hovered (fst sys')"
proof (induction evs arbitrary: sys)
  case Nil
  then show ?case by simp
next
  case (Cons ev evs)
  from Cons.prems(1) obtain sys1
    where s1: "step L ev sys = Some sys1" and r: "run L evs sys1 = Some sys'"
    by (auto split: option.splits)
  from step_focus [of L ev "fst sys" "snd sys" "fst sys1" "snd sys1"] s1 Cons.prems(2)
  have "focus_is_hovered (fst sys1)" by simp
  from Cons.IH [OF r this] show ?case .
qed

text \<open>
  C1, as amended. In every state that a session reaches from the initial state, a viewed
  photo is the hovered photo: focus is given only to the photo that the same frame has
  just marked hovered, and nothing changes the hover while a photo is viewed.
\<close>

theorem C1_viewed_photo_is_hovered:
  assumes "run L evs (init_state, []) = Some sys" and "viewingPhoto (fst sys) = Some i"
  shows "hoveredPhoto (fst sys) = Some i"
proof -
  have "focus_is_hovered (fst (init_state :: 'a state, [] :: 'a anim list))"
    by (simp add: focus_is_hovered_def init_state_def)
  from run_focus [OF assms(1) this] assms(2) show ?thesis
    by (simp add: focus_is_hovered_def)
qed

section \<open>Sample sessions\<close>

lemma onResults_hand_row:
  "onResults (hand_row tx ix) s =
     Inr (s\<lparr>pinchDist := \<bar>tx - ix\<bar>, handNdc := (1 - (tx + ix), 0), isHandDetected := True\<rparr>)"
  by (simp add: onResults_def hand_row_def row_frame_def Let_def at_xy_def add_divide_distrib)

lemmas session_defs = state_after_def step_def onResults_hand_row createPhotoMesh_def
  flat_three_def init_state_def lerp2_def lerp3_def lerpVectors_def unhover_def
  PINCH_THRESHOLD_def FLICK_THRESHOLD_def CENTER_VIEW_POS_def camera_position_def
  TREE_HEIGHT_def BASE_RADIUS_def targetScale_def

lemma hover_state:
  "isHandDetected (state_after hover_events)"
  "viewingPhoto (state_after hover_events) = None"
  "length (photos (state_after hover_events)) = 1"
  "pinchDist (state_after hover_events) = 0.03"
  "\<not> wasPinching (state_after hover_events)"
  by (simp_all add: hover_events_def session_defs frame_defs)

text \<open>
  C6 on the hovering session: the pinch has just begun, and the frame opens photo 0.
\<close>

theorem C6_pinch_opens_hovered_witness:
  "isHandDetected (state_after hover_events) \<and>
   viewingPhoto (state_after hover_events) = None \<and>
   0 < length (photos (state_after hover_events)) \<and>
   pinchDist (state_after hover_events) < PINCH_THRESHOLD \<and>
   \<not> wasPinching (state_after hover_events) \<and>
   viewingPhoto (fst (animate flat_three (Some 0) (state_after hover_events))) = Some 0 \<and>
   parent (photos (fst (animate flat_three (Some 0) (state_after hover_events))) ! 0) = Some Scene \<and>
   statusText (fst (animate flat_three (Some 0) (state_after hover_events))) = ''OPENING...''"
  using C6_pinch_opens_hovered [of "state_after hover_events" 0 flat_three]
  by (simp add: hover_state PINCH_THRESHOLD_def)

lemma open_state:
  "run flat_three open_events (init_state, []) \<noteq> None"
  "viewingPhoto (state_after open_events) = Some 0"
  "hoveredPhoto (state_after open_events) = Some 0"
  by (simp_all add: open_events_def session_defs frame_defs)

text \<open>
  C1, as stated, fails: in the state reached by opening photo 0, the viewed photo and the
  hovered photo are both photo 0.
\<close>

theorem C1_focus_and_hover_coincide_counterexample:
  "run flat_three open_events (init_state, []) \<noteq> None \<and>
   viewingPhoto (state_after open_events) = Some 0 \<and>
   hoveredPhoto (state_after open_events) = Some 0"
  by (simp add: open_state)

lemma view_state:
  "run flat_three view_events (init_state, []) \<noteq> None"
  "viewingPhoto (state_after view_events) = Some 0"
  by (simp_all add: view_events_def session_defs frame_defs)

text \<open>
  C1 as amended, on the session that keeps photo 0 open for one more frame.
\<close>

theorem C1_viewed_photo_is_hovered_witness:
  "run flat_three view_events (init_state, []) \<noteq> None \<and>
   viewingPhoto (state_after view_events) = Some 0 \<and>
   hoveredPhoto (state_after view_events) = Some 0"
proof -
  from view_state(1) obtain sys where r: "run flat_three view_events (init_state, []) = Some sys"
    by blast
  then have e: "state_after view_events = fst sys" by (simp add: state_after_def)
  with view_state(2) have v: "viewingPhoto (fst sys) = Some 0" by simp
  from C1_viewed_photo_is_hovered [OF r v] e view_state show ?thesis by simp
qed

lemma flick_state:
  "isHandDetected (state_after flick_events)"
  "viewingPhoto (state_after flick_events) = Some 0"
  "length (photos (state_after flick_events)) = 1"
  "pinchDist (state_after flick_events) = 0.2"
  "prevPinchDist (state_after flick_events) = 0.03"
  by (simp_all add: flick_events_def session_defs frame_defs)

lemma after_flick:
  "emitted flat_three (Frame None # after_flick_events)
     (state_after flick_events, tasks_after flick_events) =
     [''RETURNING...'', ''PINCH TO OPEN'', ''PINCH AIR TO ROTATE'']"
  by (simp add: after_flick_events_def flick_events_def tasks_after_def session_defs frame_defs)

text \<open>
  The condition on the session is needed: a photo that is opened again while it returns
  can be dismissed again, and RETURNING is then set a second time.
\<close>

lemma reopened_photo_returns_again:
  "emitted flat_three (Frame None # reopen_events)
     (state_after flick_events, tasks_after flick_events) =
     [''RETURNING...'', ''OPENING...'', ''RETURNING...'']"
  by (simp add: reopen_events_def flick_events_def tasks_after_def session_defs frame_defs)

text \<open>
  C3 on the flick: the distance grew from 0.03 to 0.2 while photo 0 was viewed; in the
  frames that follow nothing is opened and RETURNING is not set again.
\<close>

theorem C3_flick_dismisses_once_witness:
  "isHandDetected (state_after flick_events) \<and>
   viewingPhoto (state_after flick_events) = Some 0 \<and>
   0 < length (photos (state_after flick_events)) \<and>
   \<not> pinchDist (state_after flick_events) < PINCH_THRESHOLD \<and>
   pinchDist (state_after flick_events) - prevPinchDist (state_after flick_events) > FLICK_THRESHOLD \<and>
   viewingPhoto (fst (animate flat_three None (state_after flick_events))) = None \<and>
   statusText (fst (animate flat_three None (state_after flick_events))) = ''RETURNING...'' \<and>
   isReturning (photos (fst (animate flat_three None (state_after flick_events))) ! 0) \<and>
   ''OPENING...'' \<notin> set (emitted flat_three (Frame None # after_flick_events)
                                (state_after flick_events, tasks_after flick_events)) \<and>
   emitted flat_three (Frame None # after_flick_events)
     (state_after flick_events, tasks_after flick_events) =
     [''RETURNING...'', ''PINCH TO OPEN'', ''PINCH AIR TO ROTATE''] \<and>
   count_list (emitted flat_three (Frame None # after_flick_events)
                 (state_after flick_events, tasks_after flick_events)) ''RETURNING...'' = 1"
proof -
  have o: "''OPENING...'' \<notin> set (emitted flat_three (Frame None # after_flick_events)
                                (state_after flick_events, tasks_after flick_events))"
    by (simp only: after_flick) simp
  have fl: "\<not> pinchDist (state_after flick_events) < PINCH_THRESHOLD \<and>
            pinchDist (state_after flick_events) - prevPinchDist (state_after flick_events)
              > FLICK_THRESHOLD"
    by (simp add: flick_state PINCH_THRESHOLD_def FLICK_THRESHOLD_def)
  have len: "0 < length (photos (state_after flick_events))" by (simp add: flick_state)
  from C3_flick_dismisses_once [OF flick_state(1) flick_state(2) len, of flat_three None,
         THEN conjunct1, rule_format, OF fl]
  have c: "viewingPhoto (fst (animate flat_three None (state_after flick_events))) = None \<and>
      statusText (fst (animate flat_three None (state_after flick_events))) = ''RETURNING...'' \<and>
      isReturning (photos (fst (animate flat_three None (state_after flick_events))) ! 0) \<and>
      count_list (emitted flat_three (Frame None # after_flick_events)
                 (state_after flick_events, tasks_after flick_events)) ''RETURNING...'' = 1"
    using o by simp
  from c o fl len flick_state(1,2) after_flick show ?thesis by simp
qed

lemma spread_state:
  "isHandDetected (state_after spread_events)"
  "viewingPhoto (state_after spread_events) = None"
  "pinchDist (state_after spread_events) = 0.15"
  "treeScale (state_after spread_events) = 1"
  by (simp_all add: spread_events_def session_defs frame_defs)

text \<open>
  C7 at pinch distance 0.15: the target is 1.1 and the scale goes from 1 to 1.008.
\<close>

theorem C7_scale_eases_to_target_witness:
  "isHandDetected (state_after spread_events) \<and>
   viewingPhoto (state_after spread_events) = None \<and>
   \<not> pinchDist (state_after spread_events) < PINCH_THRESHOLD \<and>
   pinchDist (state_after spread_events) = 0.15 \<and>
   treeScale (state_after spread_events) = 1 \<and>
   treeScale (fst (animate flat_three None (state_after spread_events))) = 1.008 \<and>
   statusText (fst (animate flat_three None (state_after spread_events))) = ''PINCH AIR TO ROTATE''"
  using C7_scale_eases_to_target [of "state_after spread_events" flat_three]
  by (simp add: spread_state PINCH_THRESHOLD_def clamp_spec_def)

lemma drag_state:
  "isHandDetected (state_after drag_events)"
  "viewingPhoto (state_after drag_events) = None"
  "pinchDist (state_after drag_events) = 0"
  "handNdc (state_after drag_events) = (1, 0)"
  "prevHandNdc (state_after drag_events) = (0, 0)"
  "targetRotY (state_after drag_events) = 0"
  by (simp_all add: drag_events_def session_defs frame_defs)

text \<open>
  C8 as amended, on a pinch whose raw position moved from 0 to 1.
\<close>

theorem C8_rotation_follows_raw_hand_witness:
  "isHandDetected (state_after drag_events) \<and>
   viewingPhoto (state_after drag_events) = None \<and>
   pinchDist (state_after drag_events) < PINCH_THRESHOLD \<and>
   targetRotY (fst (animate flat_three None (state_after drag_events))) = 4 \<and>
   statusText (fst (animate flat_three None (state_after drag_events))) = ''ROTATING TREE''"
  using C8_rotation_follows_raw_hand [of "state_after drag_events" flat_three]
  by (simp add: drag_state PINCH_THRESHOLD_def)

lemma drag_back_state:
  "run flat_three drag_back_events (init_state, []) \<noteq> None"
  "isHandDetected (state_after drag_back_events)"
  "viewingPhoto (state_after drag_back_events) = None"
  "pinchDist (state_after drag_back_events) = 0"
  "mouse (state_after drag_back_events) = (0.3, 0)"
  "targetRotY (state_after drag_back_events) = 4"
  "mouse (fst (animate flat_three None (state_after drag_back_events))) = (0.3, 0)"
  "targetRotY (fst (animate flat_three None (state_after drag_back_events))) = 1.2"
  by (simp_all add: drag_back_events_def session_defs frame_defs)

text \<open>
  C8, as stated, fails: in this reachable state the smoothed pointer does not move during
  the frame (it has caught up with the hand at 0.3), and the target rotation changes by
  -2.8, four times the move of the raw hand position from 1 to 0.3.
\<close>

theorem C8_smoothed_cursor_counterexample:
  "run flat_three drag_back_events (init_state, []) \<noteq> None \<and>
   isHandDetected (state_after drag_back_events) \<and>
   viewingPhoto (state_after drag_back_events) = None \<and>
   pinchDist (state_after drag_back_events) < PINCH_THRESHOLD \<and>
   fst (mouse (fst (animate flat_three None (state_after drag_back_events)))) -
     fst (mouse (state_after drag_back_events)) = 0 \<and>
   targetRotY (fst (animate flat_three None (state_after drag_back_events))) -
     targetRotY (state_after drag_back_events) = - 2.8"
  by (simp add: drag_back_state PINCH_THRESHOLD_def)

lemma near_pinch:
  "length near_pinch_frame = 21"
  "distance (near_pinch_frame ! THUMB_TIP) (near_pinch_frame ! INDEX_TIP) = 0.05"
  by (simp_all add: near_pinch_frame_def row_frame_def finger_indices distance_same_row at_xy_def)

text \<open>
  C10 on a hand at distance 0.05: the state machine pinches, the classifier does not.
\<close>

theorem C10_pinching_threshold_witness:
  "21 \<le> length near_pinch_frame \<and>
   0.04 \<le> distance (near_pinch_frame ! THUMB_TIP) (near_pinch_frame ! INDEX_TIP) \<and>
   distance (near_pinch_frame ! THUMB_TIP) (near_pinch_frame ! INDEX_TIP) < 0.06 \<and>
   (case onResults \<lparr>multiHandLandmarks = Some [near_pinch_frame]\<rparr> (init_state :: unit state) of
      Inl e \<Rightarrow> False
    | Inr s1 \<Rightarrow> isPinching (fst (animate flat_three None s1))) \<and>
   detectGesture (Some near_pinch_frame) \<noteq> PINCH"
  using C10_pinching_threshold [of flat_three None init_state near_pinch_frame "[]"]
  by (auto simp add: near_pinch split: sum.splits)

lemma returning_state:
  "length (photos (state_after returning_events)) = 1"
  "parent (photos (state_after returning_events) ! 0) = Some Scene"
  "isReturning (photos (state_after returning_events) ! 0)"
  "length (tasks_after returning_events) = 1"
  "anim_photo (hd (tasks_after returning_events)) = 0"
  "anim_p (hd (tasks_after returning_events)) = 0.95"
  by (simp_all add: returning_events_def tasks_after_def session_defs frame_defs)

text \<open>
  C5 on the last frame of the return animation that the flick session starts: photo 0
  goes from the scene back to the tree group, at its original pose.
\<close>

theorem C5_return_snaps_to_original_witness:
  "0 < length (photos (state_after returning_events)) \<and>
   anim_photo (hd (tasks_after returning_events)) = 0 \<and>
   \<not> anim_p (hd (tasks_after returning_events)) + 0.05 < 1 \<and>
   parent (photos (state_after returning_events) ! 0) = Some Scene \<and>
   isReturning (photos (state_after returning_events) ! 0) \<and>
   snd (loop flat_three (hd (tasks_after returning_events)) (state_after returning_events)) = None \<and>
   position (photos (fst (loop flat_three (hd (tasks_after returning_events))
                            (state_after returning_events))) ! 0) =
     originalPos (photos (state_after returning_events) ! 0) \<and>
   rotation (photos (fst (loop flat_three (hd (tasks_after returning_events))
                            (state_after returning_events))) ! 0) =
     originalRot (photos (state_after returning_events) ! 0) \<and>
   parent (photos (fst (loop flat_three (hd (tasks_after returning_events))
                          (state_after returning_events))) ! 0) = Some TreeGroup \<and>
   \<not> isReturning (photos (fst (loop flat_three (hd (tasks_after returning_events))
                                (state_after returning_events))) ! 0)"
  using C5_return_snaps_to_original [of 0 "state_after returning_events"
          "hd (tasks_after returning_events)" flat_three, THEN conjunct1]
  by (simp add: returning_state)

end
